theory Spec2Isabelle
  imports Main
begin

section \<open>Values, equality, errors\<close>

text \<open>
  The values the utility moves around. \<open>VRef\<close> is a reference to an object (the
  \<open>self\<close> entry of a scope mapping, a bound method, ...): references compare by
  identity, as Python's default \<open>object.__eq__\<close> does. \<open>VNaN n\<close> is a float
  not-a-number, the object of identity \<open>n\<close>; it is the one float among the values,
  because it is the value that \<open>!=\<close> tells apart from itself.
\<close>

datatype val =
    VNone
  | VBool bool
  | VInt int
  | VStr string
  | VTuple "val list"
  | VRef nat
  | VNaN nat

text \<open>
  \<open>x is y\<close> for two NaN objects. Among the other values an object always compares
  equal to itself, so their identity needs no model.
\<close>

fun same_nan :: "val \<Rightarrow> val \<Rightarrow> bool" where
  "same_nan (VNaN a) (VNaN b) = (a = b)"
| "same_nan _ _ = False"

text \<open>
  Python's \<open>==\<close> on these values: \<open>bool\<close> is a subclass of \<open>int\<close>
  (\<open>True == 1\<close>, \<open>False == 0\<close>), a NaN is equal to nothing, itself included, values
  of different kinds are unequal. Tuples compare element by element, and two elements
  count as equal when they are the same object or compare equal (\<open>x is y or x == y\<close>).
\<close>

fun py_eq :: "val \<Rightarrow> val \<Rightarrow> bool"
  and py_eq_list :: "val list \<Rightarrow> val list \<Rightarrow> bool" where
  "py_eq VNone VNone = True"
| "py_eq (VBool a) (VBool b) = (a = b)"
| "py_eq (VBool a) (VInt j) = ((if a then 1 else 0) = j)"
| "py_eq (VInt i) (VBool b) = (i = (if b then 1 else 0))"
| "py_eq (VInt i) (VInt j) = (i = j)"
| "py_eq (VStr s) (VStr t) = (s = t)"
| "py_eq (VTuple xs) (VTuple ys) = py_eq_list xs ys"
| "py_eq (VRef a) (VRef b) = (a = b)"
| "py_eq _ _ = False"
| "py_eq_list [] [] = True"
| "py_eq_list (x # xs) (y # ys) = ((same_nan x y \<or> py_eq x y) \<and> py_eq_list xs ys)"
| "py_eq_list _ _ = False"

text \<open>\<open>old != new\<close>\<close>

definition py_ne :: "val \<Rightarrow> val \<Rightarrow> bool" where
  "py_ne a b = (\<not> py_eq a b)"

datatype error =
    ValueError string
  | AttributeError
  | TypeError
  | OtherError string

datatype 'a outcome = Return 'a | Raise error

section \<open>Instances\<close>

text \<open>
  What the utility does to an instance, in the order it does it: a \<open>setattr\<close>, a call
  of the attribute resolved under a name, a call of the wrapped default-value function.
\<close>

datatype event =
    Setattr string val
  | Call string "val list"
  | Default string

type_synonym namespace = "string \<rightharpoonup> val"

text \<open>
  User code called back by the utility (a listener method, the wrapped function): it
  receives positional arguments and the instance's attributes, may change the
  attributes, and returns or raises. Callbacks are taken to terminate.
\<close>

type_synonym callback = "val list \<Rightarrow> namespace \<Rightarrow> val outcome \<times> namespace"

text \<open>
  An instance as \<open>getattr\<close> and \<open>setattr\<close> see it: \<open>attrs\<close> maps every attribute
  name that resolves on the instance to its value (a method is an attribute holding a
  reference), \<open>code\<close> gives the behaviour of the references that are callable, bound to
  this instance. \<open>trace\<close> records the events of the utility on this instance; user code
  has no access to it.
\<close>

record obj =
  attrs :: namespace
  code :: "nat \<rightharpoonup> callback"
  trace :: "event list"

text \<open>\<open>getattr(inst, name, default)\<close>\<close>

definition getattr_default :: "obj \<Rightarrow> string \<Rightarrow> val \<Rightarrow> val" where
  "getattr_default inst name dflt =
     (case attrs inst name of Some v \<Rightarrow> v | None \<Rightarrow> dflt)"

text \<open>\<open>setattr(inst, name, v)\<close>, also \<open>inst.name = v\<close> on a plain attribute\<close>

definition setattr :: "obj \<Rightarrow> string \<Rightarrow> val \<Rightarrow> obj" where
  "setattr inst name v =
     inst\<lparr>attrs := (attrs inst)(name \<mapsto> v), trace := trace inst @ [Setattr name v]\<rparr>"

text \<open>
  \<open>(getattr(inst, name))(*args)\<close>: the name is resolved on the instance when the call
  is made. A missing attribute is an AttributeError, a value that is not callable a
  TypeError.
\<close>

definition call_attr :: "obj \<Rightarrow> string \<Rightarrow> val list \<Rightarrow> val outcome \<times> obj" where
  "call_attr inst name args =
     (case attrs inst name of
        None \<Rightarrow> (Raise AttributeError, inst)
      | Some (VRef r) \<Rightarrow>
          (case code inst r of
             None \<Rightarrow> (Raise TypeError, inst)
           | Some c \<Rightarrow>
               (case c args (attrs inst) of
                  (res, a') \<Rightarrow>
                    (res, inst\<lparr>attrs := a', trace := trace inst @ [Call name args]\<rparr>)))
      | Some _ \<Rightarrow> (Raise TypeError, inst))"

text \<open>A call used as a statement: its value is dropped, an exception propagates.\<close>

definition expr_stmt :: "val outcome \<times> obj \<Rightarrow> unit outcome \<times> obj" where
  "expr_stmt r =
     (case r of
        (Raise e, inst) \<Rightarrow> (Raise e, inst)
      | (Return v, inst) \<Rightarrow> (Return (), inst))"

section \<open>self_properties\<close>

text \<open>
  A \<open>dict\<close> in iteration order: an association list (its keys are distinct in Python).
  \<open>exclude\<close> is a tuple of names.
\<close>

type_synonym scope = "(string \<times> val) list"

text \<open>The loop of the \<open>else\<close> branch.\<close>

fun copy_items :: "string list \<Rightarrow> scope \<Rightarrow> obj \<Rightarrow> obj" where
  "copy_items exclude [] self = self"
| "copy_items exclude ((k, v) # rest) self =
     (if k \<noteq> ''self'' \<and> k \<notin> set exclude
      then copy_items exclude rest (setattr self (CHR ''_'' # k) v)
      else copy_items exclude rest self)"

text \<open>The loop of the \<open>save_args\<close> branch, with the list \<open>args\<close> it appends to.\<close>

fun copy_items_args :: "string list \<Rightarrow> scope \<Rightarrow> obj \<Rightarrow> val list \<Rightarrow> obj \<times> val list" where
  "copy_items_args exclude [] self args = (self, args)"
| "copy_items_args exclude ((k, v) # rest) self args =
     (if k \<noteq> ''self'' \<and> k \<notin> set exclude
      then copy_items_args exclude rest (setattr self (CHR ''_'' # k) v) (args @ [v])
      else copy_items_args exclude rest self args)"

definition self_properties :: "obj \<Rightarrow> scope \<Rightarrow> string list \<Rightarrow> bool \<Rightarrow> obj" where
  "self_properties self scope exclude save_args =
     (if save_args
      then (case copy_items_args exclude scope self [] of
              (self', args) \<Rightarrow> setattr self' ''_args'' (VTuple args))
      else copy_items exclude scope self)"

text \<open>The entries that pass the test \<open>k != 'self' and k not in exclude\<close> of both loops.\<close>

definition kept :: "string list \<Rightarrow> scope \<Rightarrow> scope" where
  "kept exclude scope = filter (\<lambda>(k, v). k \<noteq> ''self'' \<and> k \<notin> set exclude) scope"

section \<open>properties\<close>

record properties =
  p_scope :: "scope option"
  p_var :: "string option"
  p_auto_dirty :: bool

definition properties_init :: "scope \<Rightarrow> string \<Rightarrow> bool \<Rightarrow> properties" where
  "properties_init scope var_name auto_dirty =
     \<lparr>p_scope = Some scope, p_var = Some var_name, p_auto_dirty = auto_dirty\<rparr>"

definition properties_enter :: "properties \<Rightarrow> properties" where
  "properties_enter self = self"

definition properties_exit :: "properties \<Rightarrow> properties" where
  "properties_exit self = self\<lparr>p_scope := None, p_var := None\<rparr>"

text \<open>The \<open>listener\<close> argument: \<open>None\<close>, a \<open>bool\<close> or a \<open>str\<close>.\<close>

datatype listener = LNone | LBool bool | LStr string

text \<open>Its truth value, as \<open>if listener:\<close> tests it.\<close>

fun truthy :: "listener \<Rightarrow> bool" where
  "truthy LNone = False"
| "truthy (LBool b) = b"
| "truthy (LStr s) = (s \<noteq> [])"

text \<open>\<open>listener if isinstance(listener, str) else '_changed'\<close>\<close>

fun listener_name :: "listener \<Rightarrow> string" where
  "listener_name (LStr s) = s"
| "listener_name _ = ''_changed''"

text \<open>The decorated function: \<open>f.__name__\<close>, \<open>f.__doc__\<close> and what \<open>f(inst)\<close> does.\<close>

record pyfun =
  fn_name :: string
  fn_doc :: val
  fn_body :: "namespace \<Rightarrow> val outcome \<times> namespace"

text \<open>\<open>f(inst)\<close>\<close>

definition call_fun :: "pyfun \<Rightarrow> obj \<Rightarrow> val outcome \<times> obj" where
  "call_fun f inst =
     (case fn_body f (attrs inst) of
        (res, a') \<Rightarrow> (res, inst\<lparr>attrs := a', trace := trace inst @ [Default (fn_name f)]\<rparr>))"

text \<open>The setter of the \<open>if listener:\<close> branch.\<close>

definition setter_listener ::
  "string \<Rightarrow> string \<Rightarrow> bool \<Rightarrow> obj \<Rightarrow> val \<Rightarrow> unit outcome \<times> obj" where
  "setter_listener field lname auto_dirty inst new =
     (let old = getattr_default inst field VNone in
      if py_ne old new then
        (let inst1 = setattr inst field new;
             inst2 = (if auto_dirty then setattr inst1 ''_is_dirty'' (VBool True) else inst1)
         in expr_stmt (call_attr inst2 lname [VStr field, old, new]))
      else (Return (), inst))"

text \<open>The setter of the \<open>else\<close> branch.\<close>

definition setter_plain :: "string \<Rightarrow> bool \<Rightarrow> obj \<Rightarrow> val \<Rightarrow> unit outcome \<times> obj" where
  "setter_plain field auto_dirty inst new =
     (if py_ne (getattr_default inst field VNone) new then
        (let inst1 = setattr inst field new
         in (Return (), if auto_dirty then setattr inst1 ''_is_dirty'' (VBool True) else inst1))
      else (Return (), inst))"

text \<open>
  \<open>lambda inst: getattr(inst, field, f(inst))\<close>: the arguments of \<open>getattr\<close> are
  evaluated before \<open>getattr\<close> runs, so \<open>f(inst)\<close> is called first.
\<close>

definition getter :: "string \<Rightarrow> pyfun \<Rightarrow> obj \<Rightarrow> val outcome \<times> obj" where
  "getter field f inst =
     (case call_fun f inst of
        (Raise e, inst') \<Rightarrow> (Raise e, inst')
      | (Return d, inst') \<Rightarrow> (Return (getattr_default inst' field d), inst'))"

text \<open>Python's \<open>property(fget, fset, fdel, doc)\<close>; \<open>fdel\<close> is always \<open>None\<close> here.\<close>

record property =
  fget :: "obj \<Rightarrow> val outcome \<times> obj"
  fset :: "(obj \<Rightarrow> val \<Rightarrow> unit outcome \<times> obj) option"
  doc :: val

text \<open>\<open>inst.name\<close> and \<open>inst.name = v\<close> through the descriptor.\<close>

definition property_get :: "property \<Rightarrow> obj \<Rightarrow> val outcome \<times> obj" where
  "property_get p inst = fget p inst"

definition property_set :: "property \<Rightarrow> obj \<Rightarrow> val \<Rightarrow> unit outcome \<times> obj" where
  "property_set p inst v =
     (case fset p of None \<Rightarrow> (Raise AttributeError, inst) | Some s \<Rightarrow> s inst v)"

definition decorator :: "bool \<Rightarrow> listener \<Rightarrow> bool \<Rightarrow> pyfun \<Rightarrow> property outcome" where
  "decorator read_only lst auto_dirty f =
     (let field = CHR ''_'' # fn_name f in
      if read_only \<and> truthy lst then
        Raise (ValueError (''property '' @ field @
                 '' cannot be read_only and observable at the same time.''))
      else
        Return \<lparr>fget = getter field f,
                fset = (if read_only then None
                        else if truthy lst
                          then Some (setter_listener field (listener_name lst) auto_dirty)
                          else Some (setter_plain field auto_dirty)),
                doc = fn_doc f\<rparr>)"

text \<open>
  \<open>properties.prop\<close>: it fixes \<open>auto_dirty\<close> and returns the decorator, which is then
  applied to the function \<open>f\<close>.
\<close>

definition prop_py :: "properties \<Rightarrow> bool \<Rightarrow> listener \<Rightarrow> bool \<Rightarrow> pyfun \<Rightarrow> property outcome" where
  "prop_py self read_only lst auto_dirty =
     decorator read_only lst (p_auto_dirty self \<or> auto_dirty)"

section \<open>An example class\<close>

text \<open>
  A small class in the style of the usage notes at the end of the source file:
  \<^verbatim>\<open>
  class Car:
      with properties(locals(), 'meta') as meta:
          @meta.prop(read_only=True)
          def brand(self): """Brand"""
          @meta.prop(listener='_on_change')
          def speed(self): return 0
          @meta.prop()
          def vin(self): raise NotImplementedError
      def _on_change(self, prop, old, new): pass
      def _changed(self, prop, old, new): pass
      def _limit(self, prop, old, speed):
          if speed > 200: self._speed = 0
  \<close>
  The class-body \<open>locals()\<close> is not read by the utility and is left empty.
\<close>

definition meta :: properties where
  "meta = properties_enter (properties_init [] ''meta'' False)"

definition brand :: pyfun where
  "brand = \<lparr>fn_name = ''brand'', fn_doc = VStr ''Brand'', fn_body = (\<lambda>a. (Return VNone, a))\<rparr>"

definition speed :: pyfun where
  "speed = \<lparr>fn_name = ''speed'', fn_doc = VNone, fn_body = (\<lambda>a. (Return (VInt 0), a))\<rparr>"

definition vin :: pyfun where
  "vin = \<lparr>fn_name = ''vin'', fn_doc = VNone,
          fn_body = (\<lambda>a. (Raise (OtherError ''NotImplementedError''), a))\<rparr>"

definition on_change :: callback where
  "on_change args a = (Return VNone, a)"

definition limit :: callback where
  "limit args a =
     (case args of
        [p, old, VInt s] \<Rightarrow> (Return VNone, if s > 200 then a(''_speed'' \<mapsto> VInt 0) else a)
      | _ \<Rightarrow> (Raise TypeError, a))"

text \<open>A fresh \<open>Car\<close>: its three methods and no instance attribute yet.\<close>

definition car :: obj where
  "car = \<lparr>attrs = [''_on_change'' \<mapsto> VRef 1, ''_changed'' \<mapsto> VRef 1, ''_limit'' \<mapsto> VRef 2],
          code = [1 \<mapsto> on_change, 2 \<mapsto> limit],
          trace = []\<rparr>"

text \<open>
  Properties declared on it, as \<open>meta.prop(...)\<close> returns them:
  \<open>speed\<close> with \<open>listener='_on_change'\<close>, with \<open>listener='_limit'\<close>, with
  \<open>listener=True\<close>, with \<open>listener='_on_change', auto_dirty=True\<close>, with
  \<open>auto_dirty=True\<close>, with \<open>listener=''\<close>; \<open>vin\<close> and \<open>is_dirty\<close> with no argument.
\<close>

definition observed_speed :: property where
  "observed_speed = \<lparr>fget = getter ''_speed'' speed,
                      fset = Some (setter_listener ''_speed'' ''_on_change'' False),
                      doc = VNone\<rparr>"

definition limited_speed :: property where
  "limited_speed = \<lparr>fget = getter ''_speed'' speed,
                     fset = Some (setter_listener ''_speed'' ''_limit'' False),
                     doc = VNone\<rparr>"

definition changed_speed :: property where
  "changed_speed = \<lparr>fget = getter ''_speed'' speed,
                     fset = Some (setter_listener ''_speed'' ''_changed'' False),
                     doc = VNone\<rparr>"

definition tracked_speed :: property where
  "tracked_speed = \<lparr>fget = getter ''_speed'' speed,
                     fset = Some (setter_listener ''_speed'' ''_on_change'' True),
                     doc = VNone\<rparr>"

definition dirty_speed :: property where
  "dirty_speed = \<lparr>fget = getter ''_speed'' speed,
                   fset = Some (setter_plain ''_speed'' True),
                   doc = VNone\<rparr>"

definition unnamed_speed :: property where
  "unnamed_speed = \<lparr>fget = getter ''_speed'' speed,
                     fset = Some (setter_plain ''_speed'' False),
                     doc = VNone\<rparr>"

definition vin_prop :: property where
  "vin_prop = \<lparr>fget = getter ''_vin'' vin,
                fset = Some (setter_plain ''_vin'' False),
                doc = VNone\<rparr>"

definition is_dirty :: pyfun where
  "is_dirty = \<lparr>fn_name = ''is_dirty'', fn_doc = VNone,
               fn_body = (\<lambda>a. (Return (VBool False), a))\<rparr>"

definition is_dirty_prop :: property where
  "is_dirty_prop = \<lparr>fget = getter ''_is_dirty'' is_dirty,
                     fset = Some (setter_plain ''_is_dirty'' False),
                     doc = VNone\<rparr>"

section \<open>Auxiliary facts\<close>

text \<open>The equations that evaluate a declaration, and an access, on a concrete instance.\<close>

lemmas decl_defs =
  prop_py_def decorator_def Let_def meta_def properties_init_def properties_enter_def

lemmas run_defs =
  property_set_def property_get_def setter_listener_def setter_plain_def getter_def
  call_fun_def getattr_default_def py_ne_def setattr_def call_attr_def expr_stmt_def Let_def

text \<open>Every value but a NaN compares equal to itself.\<close>

lemma py_eq_list_self:
  "(\<And>x. x \<in> set xs \<Longrightarrow> same_nan x x \<or> py_eq x x) \<Longrightarrow> py_eq_list xs xs"
  by (induction xs) auto

lemma py_eq_self_or_nan: "same_nan v v \<or> py_eq v v"
  by (induction v) (auto intro: py_eq_list_self)

lemma py_eq_self_iff: "py_eq v v \<longleftrightarrow> (\<forall>n. v \<noteq> VNaN n)"
  using py_eq_self_or_nan [of v] by (cases v) auto

text \<open>What a successful declaration returns.\<close>

lemma prop_py_cases:
  assumes "prop_py ctx read_only lst auto_dirty f = Return p"
  shows "\<not> (read_only \<and> truthy lst)"
    and "fget p = getter (CHR ''_'' # fn_name f) f"
    and "fset p = (if read_only then None
                   else if truthy lst
                     then Some (setter_listener (CHR ''_'' # fn_name f) (listener_name lst)
                                  (p_auto_dirty ctx \<or> auto_dirty))
                     else Some (setter_plain (CHR ''_'' # fn_name f)
                                  (p_auto_dirty ctx \<or> auto_dirty)))"
    and "doc p = fn_doc f"
  using assms by (auto simp: prop_py_def decorator_def Let_def split: if_splits)

text \<open>The two loops of \<open>self_properties\<close> write the same attributes.\<close>

lemma copy_items_args_fst: "fst (copy_items_args ex sc self args) = copy_items ex sc self"
  by (induction sc arbitrary: self args) auto

lemma copy_items_args_snd: "snd (copy_items_args ex sc self args) = args @ map snd (kept ex sc)"
  by (induction sc arbitrary: self args) (auto simp: kept_def)

lemma copy_items_trace:
  "trace (copy_items ex sc self) =
   trace self @ map (\<lambda>(k, v). Setattr (CHR ''_'' # k) v) (kept ex sc)"
  by (induction sc arbitrary: self) (auto simp: kept_def setattr_def)

lemma copy_items_other:
  "n \<notin> (\<lambda>(k, v). CHR ''_'' # k) ` set (kept ex sc) \<Longrightarrow>
   attrs (copy_items ex sc self) n = attrs self n"
  by (induction sc arbitrary: self) (auto simp: kept_def setattr_def)

lemma copy_items_kept:
  "distinct (map fst sc) \<Longrightarrow> (k, v) \<in> set (kept ex sc) \<Longrightarrow>
   attrs (copy_items ex sc self) (CHR ''_'' # k) = Some v"
proof (induction sc arbitrary: self)
  case Nil
  then show ?case by (simp add: kept_def)
next
  case (Cons kv sc)
  obtain k' v' where kv: "kv = (k', v')" by (cases kv)
  show ?case
  proof (cases "(k, v) \<in> set (kept ex sc)")
    case True
    with Cons show ?thesis by (auto simp: kv)
  next
    case False
    with Cons.prems have eq: "k' = k" "v' = v" and keep: "k \<noteq> ''self''" "k \<notin> set ex"
      by (auto simp: kv kept_def split: if_splits)
    from Cons.prems(1) have "k \<notin> fst ` set sc" by (simp add: kv eq)
    then have "CHR ''_'' # k \<notin> (\<lambda>(k, v). CHR ''_'' # k) ` set (kept ex sc)"
      by (force simp: kept_def)
    then have "attrs (copy_items ex sc (setattr self (CHR ''_'' # k) v)) (CHR ''_'' # k)
               = attrs (setattr self (CHR ''_'' # k) v) (CHR ''_'' # k)"
      by (rule copy_items_other)
    then show ?thesis using keep by (simp add: kv eq setattr_def)
  qed
qed

section \<open>Read-only properties\<close>

text \<open>
  C6. A property declared with \<open>read_only = True\<close> and no listener argument is
  returned without a setter; assigning to it on any instance raises AttributeError
  and leaves the instance as it was.
\<close>

theorem read_only_has_no_setter:
  "\<exists>p. prop_py ctx True LNone auto_dirty f = Return p \<and> fset p = None \<and>
        (\<forall>inst v. property_set p inst v = (Raise AttributeError, inst))"
  by (simp add: prop_py_def decorator_def property_set_def)

theorem read_only_has_no_setter_witness:
  "\<exists>p. prop_py meta True LNone False brand = Return p \<and> fset p = None \<and>
        property_set p car (VStr ''Ford'') = (Raise AttributeError, car)"
  using read_only_has_no_setter [of meta False brand] by blast

text \<open>
  C2. Declaring a property with \<open>read_only = True\<close> raises ValueError when the decorator
  is applied exactly when the listener argument is true as a condition (\<open>True\<close> or a
  non-empty string); with a listener argument that is absent, \<open>False\<close> or the empty
  string the declaration succeeds and yields a property without setter. No instance is
  involved in the declaration.
\<close>

theorem read_only_listener_conflict:
  "(truthy lst \<longrightarrow>
      prop_py ctx True lst auto_dirty f =
        Raise (ValueError (''property _'' @ fn_name f @
                 '' cannot be read_only and observable at the same time.''))) \<and>
   (\<not> truthy lst \<longrightarrow> (\<exists>p. prop_py ctx True lst auto_dirty f = Return p \<and> fset p = None))"
  by (simp add: prop_py_def decorator_def)

theorem read_only_listener_conflict_witness:
  "truthy (LStr ''_on_change'') \<and>
   prop_py meta True (LStr ''_on_change'') False brand =
     Raise (ValueError ''property _brand cannot be read_only and observable at the same time.'') \<and>
   \<not> truthy (LStr []) \<and>
   (\<exists>p. prop_py meta True (LStr []) False brand = Return p \<and> fset p = None)"
  using read_only_listener_conflict [of "LStr ''_on_change''" meta False brand]
    read_only_listener_conflict [of "LStr []" meta False brand]
  by (simp add: brand_def)

text \<open>
  The claim as worded (every listener argument other than \<open>None\<close>, a boolean included)
  fails for \<open>listener = False\<close>: the declaration returns a read-only property.
\<close>

theorem read_only_listener_False_counterexample:
  "prop_py meta True (LBool False) False brand =
     Return \<lparr>fget = getter ''_brand'' brand, fset = None, doc = VStr ''Brand''\<rparr>"
  by (simp add: prop_py_def decorator_def brand_def)

section \<open>The bulk initializer\<close>

lemma self_properties_save:
  "self_properties self scope exclude True =
     setattr (copy_items exclude scope self) ''_args'' (VTuple (map snd (kept exclude scope)))"
proof -
  obtain s' args where ca: "copy_items_args exclude scope self [] = (s', args)"
    by (cases "copy_items_args exclude scope self []")
  have "s' = copy_items exclude scope self"
    using copy_items_args_fst [of exclude scope self "[]"] ca by simp
  moreover have "args = map snd (kept exclude scope)"
    using copy_items_args_snd [of exclude scope self "[]"] ca by simp
  ultimately show ?thesis by (simp add: self_properties_def ca)
qed

lemma self_properties_plain:
  "self_properties self scope exclude False = copy_items exclude scope self"
  by (simp add: self_properties_def)

text \<open>
  C8. With \<open>save_args = True\<close> the attribute \<open>_args\<close> of the instance holds, after the
  call, the tuple of the values of the entries whose key is neither \<open>'self'\<close> nor
  excluded, in the order of the mapping.
\<close>

theorem save_args_tuple:
  "attrs (self_properties self scope exclude True) ''_args'' =
     Some (VTuple (map snd (kept exclude scope)))"
  by (simp add: self_properties_save setattr_def)

theorem save_args_tuple_witness:
  "attrs (self_properties car [(''self'', VRef 0), (''x'', VInt 10), (''y'', VInt 20)] [] True)
     ''_args'' = Some (VTuple [VInt 10, VInt 20])"
  using save_args_tuple [of car "[(''self'', VRef 0), (''x'', VInt 10), (''y'', VInt 20)]" "[]"]
  by (simp add: kept_def)

text \<open>
  C7. For a mapping with distinct keys: every entry whose key is not \<open>'self'\<close>, not
  excluded and, when \<open>save_args\<close> is set, not \<open>'args'\<close>, ends up on the instance as the
  attribute named by the key with one underscore in front, holding the entry's value.
  The attributes written are exactly those of the entries that pass the test, in the
  order of the mapping, followed by \<open>_args\<close> when \<open>save_args\<close> is set. For \<open>'self'\<close>
  and for an excluded key no attribute is written and the attribute of that name keeps
  what it held, \<open>_args\<close> under \<open>save_args\<close> apart.
\<close>

theorem self_properties_copies:
  assumes "distinct (map fst scope)"
  shows
    "(\<forall>k v. (k, v) \<in> set scope \<longrightarrow> k \<noteq> ''self'' \<longrightarrow> k \<notin> set exclude \<longrightarrow>
            (save_args \<longrightarrow> k \<noteq> ''args'') \<longrightarrow>
            attrs (self_properties self scope exclude save_args) (CHR ''_'' # k) = Some v) \<and>
     trace (self_properties self scope exclude save_args) =
       trace self @ map (\<lambda>(k, v). Setattr (CHR ''_'' # k) v) (kept exclude scope) @
       (if save_args then [Setattr ''_args'' (VTuple (map snd (kept exclude scope)))] else []) \<and>
     (\<forall>k v. (k = ''self'' \<or> k \<in> set exclude) \<longrightarrow> (save_args \<longrightarrow> k \<noteq> ''args'') \<longrightarrow>
            Setattr (CHR ''_'' # k) v \<notin>
              set (drop (length (trace self))
                     (trace (self_properties self scope exclude save_args))) \<and>
            attrs (self_properties self scope exclude save_args) (CHR ''_'' # k) =
              attrs self (CHR ''_'' # k))"
proof (intro conjI allI impI)
  fix k v
  assume kv: "(k, v) \<in> set scope" "k \<noteq> ''self''" "k \<notin> set exclude"
    and na: "save_args \<longrightarrow> k \<noteq> ''args''"
  from kv have "(k, v) \<in> set (kept exclude scope)" by (simp add: kept_def)
  with assms have c: "attrs (copy_items exclude scope self) (CHR ''_'' # k) = Some v"
    by (rule copy_items_kept)
  show "attrs (self_properties self scope exclude save_args) (CHR ''_'' # k) = Some v"
  proof (cases save_args)
    case True
    with na c show ?thesis by (simp add: self_properties_save setattr_def)
  next
    case False
    with c show ?thesis by (simp add: self_properties_plain)
  qed
next
  show "trace (self_properties self scope exclude save_args) =
       trace self @ map (\<lambda>(k, v). Setattr (CHR ''_'' # k) v) (kept exclude scope) @
       (if save_args then [Setattr ''_args'' (VTuple (map snd (kept exclude scope)))] else [])"
    by (cases save_args)
      (simp_all add: self_properties_save self_properties_plain setattr_def copy_items_trace)
next
  fix k v
  assume ex: "k = ''self'' \<or> k \<in> set exclude" and na: "save_args \<longrightarrow> k \<noteq> ''args''"
  have nk: "CHR ''_'' # k \<notin> (\<lambda>(k, v). CHR ''_'' # k) ` set (kept exclude scope)"
    using ex by (auto simp: kept_def)
  then have nw: "Setattr (CHR ''_'' # k) v \<notin>
      set (map (\<lambda>(k, v). Setattr (CHR ''_'' # k) v) (kept exclude scope))"
    by force
  show "Setattr (CHR ''_'' # k) v \<notin>
          set (drop (length (trace self))
                 (trace (self_properties self scope exclude save_args)))"
    using nw na
    by (cases save_args)
      (simp_all add: self_properties_save self_properties_plain setattr_def copy_items_trace)
  show "attrs (self_properties self scope exclude save_args) (CHR ''_'' # k) =
          attrs self (CHR ''_'' # k)"
    using copy_items_other [OF nk] na
    by (cases save_args)
      (simp_all add: self_properties_save self_properties_plain setattr_def)
qed

theorem self_properties_copies_witness:
  "distinct (map fst [(''self'', VRef 0), (''a'', VInt 1), (''b'', VInt 2)]) \<and>
   attrs (self_properties car [(''self'', VRef 0), (''a'', VInt 1), (''b'', VInt 2)] [] False)
     ''_a'' = Some (VInt 1) \<and>
   attrs (self_properties car [(''self'', VRef 0), (''a'', VInt 1), (''b'', VInt 2)] [] False)
     ''_b'' = Some (VInt 2) \<and>
   attrs (self_properties car [(''self'', VRef 0), (''a'', VInt 1), (''b'', VInt 2)] [] False)
     ''_self'' = None \<and>
   trace (self_properties car [(''self'', VRef 0), (''a'', VInt 1), (''b'', VInt 2)] [] False)
     = [Setattr ''_a'' (VInt 1), Setattr ''_b'' (VInt 2)]"
proof -
  let ?sc = "[(''self'', VRef 0), (''a'', VInt 1), (''b'', VInt 2)]"
  have d: "distinct (map fst ?sc)" by simp
  note t = self_properties_copies [OF d, of "[]" False car]
  from t have a: "attrs (self_properties car ?sc [] False) ''_a'' = Some (VInt 1)"
    and b: "attrs (self_properties car ?sc [] False) ''_b'' = Some (VInt 2)"
    by simp_all
  from t have s: "attrs (self_properties car ?sc [] False) ''_self'' = attrs car ''_self''"
    by blast
  from t have tr: "trace (self_properties car ?sc [] False) =
      [Setattr ''_a'' (VInt 1), Setattr ''_b'' (VInt 2)]"
    by (simp add: kept_def car_def)
  from d a b s tr show ?thesis by (simp add: car_def)
qed

text \<open>
  The claim as worded fails under \<open>save_args = True\<close> for an entry \<open>'args'\<close>: the
  attribute \<open>_args\<close> ends up holding the tuple, not the entry's value; and \<open>_args\<close> is
  written although \<open>'args'\<close> is excluded.
\<close>

theorem self_properties_args_counterexample:
  "attrs (self_properties car [(''self'', VRef 0), (''args'', VInt 5)] [] True) ''_args''
     = Some (VTuple [VInt 5]) \<and>
   attrs (self_properties car [(''self'', VRef 0), (''args'', VInt 5)] [] True) ''_args''
     \<noteq> Some (VInt 5) \<and>
   attrs car ''_args'' = None \<and>
   attrs (self_properties car [(''args'', VInt 5)] [''args''] True) ''_args''
     = Some (VTuple [])"
  by (simp add: self_properties_def setattr_def car_def)

section \<open>Declared properties\<close>

lemma property_get_declared:
  assumes "prop_py ctx read_only lst auto_dirty f = Return p"
  shows "property_get p inst = getter (CHR ''_'' # fn_name f) f inst"
  using prop_py_cases(2) [OF assms] by (simp add: property_get_def)

lemma property_set_declared:
  assumes "prop_py ctx False lst auto_dirty f = Return p"
  shows "property_set p inst v =
           (if truthy lst
            then setter_listener (CHR ''_'' # fn_name f) (listener_name lst)
                   (p_auto_dirty ctx \<or> auto_dirty) inst v
            else setter_plain (CHR ''_'' # fn_name f) (p_auto_dirty ctx \<or> auto_dirty) inst v)"
  using prop_py_cases(3) [OF assms] by (simp add: property_set_def)

lemma setter_listener_noop:
  "py_eq (getattr_default inst field VNone) v \<Longrightarrow>
   setter_listener field lname ad inst v = (Return (), inst)"
  by (simp add: setter_listener_def py_ne_def)

lemma setter_plain_noop:
  "py_eq (getattr_default inst field VNone) v \<Longrightarrow>
   setter_plain field ad inst v = (Return (), inst)"
  by (simp add: setter_plain_def py_ne_def)

lemma setter_plain_stored:
  "\<not> (ad \<and> field = ''_is_dirty'') \<Longrightarrow> py_eq v v \<Longrightarrow>
   py_eq (getattr_default (snd (setter_plain field ad inst v)) field VNone) v"
  by (auto simp: setter_plain_def py_ne_def getattr_default_def setattr_def Let_def)

lemma getter_trace: "trace (snd (getter field f inst)) = trace inst @ [Default (fn_name f)]"
  by (simp add: getter_def call_fun_def split: prod.splits outcome.splits)

lemma getter_attrs: "attrs (snd (getter field f inst)) = snd (fn_body f (attrs inst))"
  by (simp add: getter_def call_fun_def split: prod.splits outcome.splits)

lemma getter_raise:
  "fn_body f (attrs inst) = (Raise e, a') \<Longrightarrow> fst (getter field f inst) = Raise e"
  by (simp add: getter_def call_fun_def)

lemma getter_return:
  "fn_body f (attrs inst) = (Return d, a') \<Longrightarrow>
   fst (getter field f inst) = Return (case a' field of Some v \<Rightarrow> v | None \<Rightarrow> d)"
  by (simp add: getter_def call_fun_def getattr_default_def)

section \<open>Writes that change nothing\<close>

text \<open>
  C1. On a declared property with a setter, assigning a value that compares equal to
  the current backing value (\<open>None\<close> when the backing field is missing) returns the
  instance as it was: nothing is written, the dirty flag is not set, no listener is
  called. Hence the second of two successive writes of one value is without effect
  whenever, after the first write, the backing field still compares equal to that
  value; this is so whenever no listener is configured and the value compares equal to
  itself, which every value but a NaN does (the property \<open>is_dirty\<close> under auto-dirty
  apart).
\<close>

theorem equal_write_is_noop:
  assumes "prop_py ctx False lst auto_dirty f = Return p"
  shows
    "(py_eq (getattr_default inst (CHR ''_'' # fn_name f) VNone) v \<longrightarrow>
        property_set p inst v = (Return (), inst)) \<and>
     (py_eq (getattr_default (snd (property_set p inst v)) (CHR ''_'' # fn_name f) VNone) v \<longrightarrow>
        property_set p (snd (property_set p inst v)) v =
          (Return (), snd (property_set p inst v))) \<and>
     (\<not> truthy lst \<longrightarrow> \<not> ((p_auto_dirty ctx \<or> auto_dirty) \<and> fn_name f = ''is_dirty'') \<longrightarrow>
        py_eq v v \<longrightarrow>
        property_set p (snd (property_set p inst v)) v =
          (Return (), snd (property_set p inst v)))"
proof -
  have noop: "property_set p i v = (Return (), i)"
    if "py_eq (getattr_default i (CHR ''_'' # fn_name f) VNone) v" for i
    using that
    by (simp add: property_set_declared [OF assms] setter_listener_noop setter_plain_noop)
  have stored: "py_eq (getattr_default (snd (property_set p inst v)) (CHR ''_'' # fn_name f) VNone) v"
    if "\<not> truthy lst" "\<not> ((p_auto_dirty ctx \<or> auto_dirty) \<and> fn_name f = ''is_dirty'')"
      "py_eq v v"
  proof -
    from that(2)
    have "\<not> ((p_auto_dirty ctx \<or> auto_dirty) \<and> CHR ''_'' # fn_name f = ''_is_dirty'')"
      by simp
    from setter_plain_stored [OF this that(3)] show ?thesis
      using that(1) by (simp add: property_set_declared [OF assms])
  qed
  show ?thesis using noop stored by blast
qed

theorem equal_write_is_noop_witness:
  "prop_py meta False (LStr ''_on_change'') False speed = Return observed_speed \<and>
   py_eq (getattr_default (snd (property_set observed_speed car (VInt 50))) ''_speed'' VNone)
     (VInt 50) \<and>
   property_set observed_speed (snd (property_set observed_speed car (VInt 50))) (VInt 50) =
     (Return (), snd (property_set observed_speed car (VInt 50))) \<and>
   trace (snd (property_set observed_speed car (VInt 50))) =
     [Setattr ''_speed'' (VInt 50), Call ''_on_change'' [VStr ''_speed'', VNone, VInt 50]] \<and>
   prop_py meta False LNone True speed = Return dirty_speed \<and>
   py_eq (VInt 50) (VInt 50) \<and>
   property_set dirty_speed (snd (property_set dirty_speed car (VInt 50))) (VInt 50) =
     (Return (), snd (property_set dirty_speed car (VInt 50)))"
proof -
  have d1: "prop_py meta False (LStr ''_on_change'') False speed = Return observed_speed"
    by (simp add: decl_defs speed_def observed_speed_def)
  have d2: "prop_py meta False LNone True speed = Return dirty_speed"
    by (simp add: decl_defs speed_def dirty_speed_def)
  have tr: "trace (snd (property_set observed_speed car (VInt 50))) =
     [Setattr ''_speed'' (VInt 50), Call ''_on_change'' [VStr ''_speed'', VNone, VInt 50]]"
    by (simp add: run_defs observed_speed_def car_def on_change_def)
  have eq: "py_eq (getattr_default (snd (property_set observed_speed car (VInt 50)))
      ''_speed'' VNone) (VInt 50)"
    by (simp add: run_defs observed_speed_def car_def on_change_def)
  have n: "fn_name speed = ''speed''" by (simp add: speed_def)
  from equal_write_is_noop [OF d1, of car "VInt 50"] eq
  have w1: "property_set observed_speed (snd (property_set observed_speed car (VInt 50)))
      (VInt 50) = (Return (), snd (property_set observed_speed car (VInt 50)))"
    by (simp add: n)
  have r: "py_eq (VInt 50) (VInt 50)" by simp
  have nl: "\<not> truthy LNone" by simp
  from equal_write_is_noop [OF d2, of car "VInt 50"] nl r
  have w2: "property_set dirty_speed (snd (property_set dirty_speed car (VInt 50))) (VInt 50) =
     (Return (), snd (property_set dirty_speed car (VInt 50)))"
    by (simp add: n)
  from d1 d2 tr eq r w1 w2 show ?thesis by blast
qed

text \<open>
  The consequence as worded fails with a listener that changes the backing field: with
  \<open>_limit\<close> resetting \<open>_speed\<close>, writing 250 twice calls the listener twice. It fails
  without any listener for a NaN, which \<open>!=\<close> tells apart from itself: writing the
  same NaN twice writes the field and sets the dirty flag twice.
\<close>

theorem same_value_twice_counterexample:
  "prop_py meta False (LStr ''_limit'') False speed = Return limited_speed \<and>
   trace (snd (property_set limited_speed
                 (snd (property_set limited_speed car (VInt 250))) (VInt 250))) =
     [Setattr ''_speed'' (VInt 250), Call ''_limit'' [VStr ''_speed'', VNone, VInt 250],
      Setattr ''_speed'' (VInt 250), Call ''_limit'' [VStr ''_speed'', VInt 0, VInt 250]] \<and>
   prop_py meta False LNone True speed = Return dirty_speed \<and>
   trace (snd (property_set dirty_speed
                 (snd (property_set dirty_speed car (VNaN 0))) (VNaN 0))) =
     [Setattr ''_speed'' (VNaN 0), Setattr ''_is_dirty'' (VBool True),
      Setattr ''_speed'' (VNaN 0), Setattr ''_is_dirty'' (VBool True)]"
  by (simp add: decl_defs run_defs speed_def limited_speed_def dirty_speed_def car_def
      limit_def)

text \<open>
  C10. On a declared property with a setter and an instance whose backing field is
  missing, assigning \<open>None\<close> returns the instance as it was: the backing field is not
  created, the dirty flag is not set, no listener is called. A read after it is the read
  of the untouched instance: it calls the default-value function and, the backing field
  still missing, returns what that function returns.
\<close>

theorem assign_None_to_missing_is_noop:
  assumes "prop_py ctx False lst auto_dirty f = Return p"
    and "attrs inst (CHR ''_'' # fn_name f) = None"
  shows
    "property_set p inst VNone = (Return (), inst) \<and>
     property_get p (snd (property_set p inst VNone)) = property_get p inst \<and>
     trace (snd (property_get p (snd (property_set p inst VNone)))) =
       trace inst @ [Default (fn_name f)] \<and>
     (\<forall>d a'. fn_body f (attrs inst) = (Return d, a') \<longrightarrow> a' (CHR ''_'' # fn_name f) = None \<longrightarrow>
        fst (property_get p (snd (property_set p inst VNone))) = Return d)"
proof -
  from assms(2) have "py_eq (getattr_default inst (CHR ''_'' # fn_name f) VNone) VNone"
    by (simp add: getattr_default_def)
  then have noop: "property_set p inst VNone = (Return (), inst)"
    by (simp add: property_set_declared [OF assms(1)] setter_listener_noop setter_plain_noop)
  have get: "property_get p inst = getter (CHR ''_'' # fn_name f) f inst"
    by (rule property_get_declared [OF assms(1)])
  have "fst (property_get p inst) = Return d"
    if "fn_body f (attrs inst) = (Return d, a')" "a' (CHR ''_'' # fn_name f) = None" for d a'
    using getter_return [OF that(1), of "CHR ''_'' # fn_name f"] that(2) by (simp add: get)
  then show ?thesis by (simp add: noop get getter_trace)
qed

theorem assign_None_to_missing_is_noop_witness:
  "prop_py meta False (LStr ''_on_change'') False speed = Return observed_speed \<and>
   attrs car ''_speed'' = None \<and>
   property_set observed_speed car VNone = (Return (), car) \<and>
   fst (property_get observed_speed (snd (property_set observed_speed car VNone))) =
     Return (VInt 0)"
proof -
  have d: "prop_py meta False (LStr ''_on_change'') False speed = Return observed_speed"
    by (simp add: decl_defs speed_def observed_speed_def)
  have a: "attrs car (CHR ''_'' # fn_name speed) = None"
    by (simp add: car_def speed_def)
  have b: "fn_body speed (attrs car) = (Return (VInt 0), attrs car)"
    by (simp add: speed_def)
  note t = assign_None_to_missing_is_noop [OF d a]
  from t have w1: "property_set observed_speed car VNone = (Return (), car)" by blast
  from t a b
  have w2: "fst (property_get observed_speed (snd (property_set observed_speed car VNone))) =
      Return (VInt 0)"
    by blast
  from a have a': "attrs car ''_speed'' = None" by (simp add: speed_def)
  from d a' w1 w2 show ?thesis by blast
qed

section \<open>Reading a property\<close>

text \<open>
  C3. Reading a declared property calls the default-value function \<open>f\<close> on the instance
  first, on every read, whether the backing field is present or not. If \<open>f\<close> raises, the
  read raises. If \<open>f\<close> returns, the read returns the value of the backing field when the
  field is present (after \<open>f\<close> ran), and what \<open>f\<close> returned when it is missing.
\<close>

theorem getter_calls_default_first:
  assumes "prop_py ctx read_only lst auto_dirty f = Return p"
  shows
    "trace (snd (property_get p inst)) = trace inst @ [Default (fn_name f)] \<and>
     attrs (snd (property_get p inst)) = snd (fn_body f (attrs inst)) \<and>
     (\<forall>e a'. fn_body f (attrs inst) = (Raise e, a') \<longrightarrow> fst (property_get p inst) = Raise e) \<and>
     (\<forall>d a' v. fn_body f (attrs inst) = (Return d, a') \<longrightarrow> a' (CHR ''_'' # fn_name f) = Some v \<longrightarrow>
        fst (property_get p inst) = Return v) \<and>
     (\<forall>d a'. fn_body f (attrs inst) = (Return d, a') \<longrightarrow> a' (CHR ''_'' # fn_name f) = None \<longrightarrow>
        fst (property_get p inst) = Return d)"
proof -
  have get: "property_get p inst = getter (CHR ''_'' # fn_name f) f inst"
    by (rule property_get_declared [OF assms])
  have r: "fst (property_get p inst) = Raise e" if "fn_body f (attrs inst) = (Raise e, a')" for e a'
    using getter_raise [OF that] by (simp add: get)
  have s: "fst (property_get p inst) = Return v"
    if "fn_body f (attrs inst) = (Return d, a')" "a' (CHR ''_'' # fn_name f) = Some v" for d a' v
    using getter_return [OF that(1), of "CHR ''_'' # fn_name f"] that(2) by (simp add: get)
  have n: "fst (property_get p inst) = Return d"
    if "fn_body f (attrs inst) = (Return d, a')" "a' (CHR ''_'' # fn_name f) = None" for d a'
    using getter_return [OF that(1), of "CHR ''_'' # fn_name f"] that(2) by (simp add: get)
  have t: "trace (snd (property_get p inst)) = trace inst @ [Default (fn_name f)]"
    by (simp add: get getter_trace)
  have a: "attrs (snd (property_get p inst)) = snd (fn_body f (attrs inst))"
    by (simp add: get getter_attrs)
  from t a r s n show ?thesis by blast
qed

theorem getter_calls_default_first_witness:
  "prop_py meta False LNone True speed = Return dirty_speed \<and>
   fst (property_get dirty_speed car) = Return (VInt 0) \<and>
   trace (snd (property_get dirty_speed car)) = [Default ''speed''] \<and>
   attrs (snd (property_set dirty_speed car (VInt 50))) ''_speed'' = Some (VInt 50) \<and>
   fst (property_get dirty_speed (snd (property_set dirty_speed car (VInt 50)))) =
     Return (VInt 50) \<and>
   prop_py meta False LNone False vin = Return vin_prop \<and>
   fst (property_get vin_prop car) = Raise (OtherError ''NotImplementedError'')"
proof -
  let ?car' = "snd (property_set dirty_speed car (VInt 50))"
  have d: "prop_py meta False LNone True speed = Return dirty_speed"
    by (simp add: decl_defs speed_def dirty_speed_def)
  have dv: "prop_py meta False LNone False vin = Return vin_prop"
    by (simp add: decl_defs vin_def vin_prop_def)
  have b: "fn_body speed (attrs car) = (Return (VInt 0), attrs car)"
    and b': "fn_body speed (attrs ?car') = (Return (VInt 0), attrs ?car')"
    and bv: "fn_body vin (attrs car) = (Raise (OtherError ''NotImplementedError''), attrs car)"
    by (simp_all add: speed_def vin_def)
  have a: "attrs car (CHR ''_'' # fn_name speed) = None"
    by (simp add: car_def speed_def)
  have a': "attrs ?car' (CHR ''_'' # fn_name speed) = Some (VInt 50)"
    by (simp add: run_defs dirty_speed_def car_def speed_def)
  from getter_calls_default_first [OF d, of car] a b
  have w1: "fst (property_get dirty_speed car) = Return (VInt 0)" by blast
  from getter_calls_default_first [OF d, of car]
  have w2: "trace (snd (property_get dirty_speed car)) = [Default ''speed'']"
    by (simp add: car_def speed_def)
  from getter_calls_default_first [OF d, of ?car'] a' b'
  have w3: "fst (property_get dirty_speed ?car') = Return (VInt 50)" by blast
  from getter_calls_default_first [OF dv, of car] bv
  have w4: "fst (property_get vin_prop car) = Raise (OtherError ''NotImplementedError'')"
    by blast
  from a' have a'': "attrs ?car' ''_speed'' = Some (VInt 50)" by (simp add: speed_def)
  from d w1 w2 a'' w3 dv w4 show ?thesis by blast
qed

text \<open>
  The claim as worded fails when the backing field is present: \<open>f\<close> is called all the
  same, and when \<open>f\<close> raises the read raises instead of returning the stored value.
  After \<open>car.vin = 'X1'\<close>, reading \<open>car.vin\<close> raises.
\<close>

theorem getter_present_field_counterexample:
  "prop_py meta False LNone False vin = Return vin_prop \<and>
   attrs (snd (property_set vin_prop car (VStr ''X1''))) ''_vin'' = Some (VStr ''X1'') \<and>
   fst (property_get vin_prop (snd (property_set vin_prop car (VStr ''X1'')))) =
     Raise (OtherError ''NotImplementedError'') \<and>
   trace (snd (property_get vin_prop (snd (property_set vin_prop car (VStr ''X1''))))) =
     [Setattr ''_vin'' (VStr ''X1''), Default ''vin'']"
  by (simp add: decl_defs run_defs vin_def vin_prop_def car_def)

section \<open>Writes that change the value\<close>

lemma setter_listener_changed:
  "py_ne (getattr_default inst field VNone) new \<Longrightarrow>
   setter_listener field lname ad inst new =
     expr_stmt (call_attr
       (if ad then setattr (setattr inst field new) ''_is_dirty'' (VBool True)
        else setattr inst field new)
       lname [VStr field, getattr_default inst field VNone, new])"
  by (simp add: setter_listener_def Let_def)

lemma setter_plain_changed:
  "py_ne (getattr_default inst field VNone) new \<Longrightarrow>
   setter_plain field ad inst new =
     (Return (), if ad then setattr (setattr inst field new) ''_is_dirty'' (VBool True)
                 else setattr inst field new)"
  by (simp add: setter_plain_def Let_def)

lemma snd_expr_stmt: "snd (expr_stmt r) = snd r"
  by (simp add: expr_stmt_def split: prod.splits outcome.splits)

lemma fst_expr_stmt:
  "fst (expr_stmt r) = (case fst r of Raise e \<Rightarrow> Raise e | Return v \<Rightarrow> Return ())"
  by (simp add: expr_stmt_def split: prod.splits outcome.splits)

lemma call_attr_callable:
  "attrs i n = Some (VRef r) \<Longrightarrow> code i r = Some c \<Longrightarrow>
   call_attr i n args =
     (fst (c args (attrs i)),
      i\<lparr>attrs := snd (c args (attrs i)), trace := trace i @ [Call n args]\<rparr>)"
  by (simp add: call_attr_def split: prod.splits)

lemma call_attr_trace:
  "trace (snd (call_attr i n args)) = trace i \<or>
   trace (snd (call_attr i n args)) = trace i @ [Call n args]"
  by (simp add: call_attr_def split: option.splits val.splits prod.splits)

lemma written_trace:
  "trace (if ad then setattr (setattr inst field new) ''_is_dirty'' (VBool True)
          else setattr inst field new) =
   trace inst @ Setattr field new # (if ad then [Setattr ''_is_dirty'' (VBool True)] else [])"
  by (simp add: setattr_def)

lemma written_code:
  "code (if ad then setattr (setattr inst field new) ''_is_dirty'' (VBool True)
         else setattr inst field new) = code inst"
  by (simp add: setattr_def)

text \<open>
  C4. On a property declared with a listener argument that is true as a condition, a
  write of a value that does not compare equal to the current backing value (\<open>None\<close>
  when the field is missing) first writes the new value into the backing field, then,
  under auto-dirty, sets \<open>_is_dirty\<close> to \<open>True\<close>, then resolves the listener name on the
  instance as it then is and calls the result with the three positional arguments
  field name, old value, new value. On a first write the old value is \<open>None\<close>.
\<close>

theorem changing_write_notifies:
  fixes ctx :: properties and auto_dirty :: bool and f :: pyfun and inst :: obj and new :: val
  defines "field \<equiv> CHR ''_'' # fn_name f"
  defines "old \<equiv> getattr_default inst field VNone"
  defines "written \<equiv>
    (if p_auto_dirty ctx \<or> auto_dirty
     then setattr (setattr inst field new) ''_is_dirty'' (VBool True)
     else setattr inst field new)"
  assumes decl: "prop_py ctx False lst auto_dirty f = Return p"
    and lst: "truthy lst"
    and chg: "py_ne old new"
  shows
    "property_set p inst new =
       expr_stmt (call_attr written (listener_name lst) [VStr field, old, new]) \<and>
     trace written =
       trace inst @ Setattr field new #
         (if p_auto_dirty ctx \<or> auto_dirty then [Setattr ''_is_dirty'' (VBool True)] else []) \<and>
     (attrs inst field = None \<longrightarrow> old = VNone) \<and>
     (\<forall>r c. attrs written (listener_name lst) = Some (VRef r) \<longrightarrow> code inst r = Some c \<longrightarrow>
        trace (snd (property_set p inst new)) =
          trace written @ [Call (listener_name lst) [VStr field, old, new]] \<and>
        attrs (snd (property_set p inst new)) =
          snd (c [VStr field, old, new] (attrs written)) \<and>
        fst (property_set p inst new) =
          (case fst (c [VStr field, old, new] (attrs written)) of
             Raise e \<Rightarrow> Raise e | Return v \<Rightarrow> Return ()))"
proof -
  have eq: "property_set p inst new =
       expr_stmt (call_attr written (listener_name lst) [VStr field, old, new])"
    using chg lst
    by (simp add: property_set_declared [OF decl] setter_listener_changed
        field_def old_def written_def)
  have tr: "trace written =
       trace inst @ Setattr field new #
         (if p_auto_dirty ctx \<or> auto_dirty then [Setattr ''_is_dirty'' (VBool True)] else [])"
    unfolding written_def by (rule written_trace)
  have first: "attrs inst field = None \<longrightarrow> old = VNone"
    by (simp add: old_def getattr_default_def)
  have cd: "code written = code inst"
    unfolding written_def by (rule written_code)
  have called:
    "trace (snd (property_set p inst new)) =
          trace written @ [Call (listener_name lst) [VStr field, old, new]] \<and>
        attrs (snd (property_set p inst new)) =
          snd (c [VStr field, old, new] (attrs written)) \<and>
        fst (property_set p inst new) =
          (case fst (c [VStr field, old, new] (attrs written)) of
             Raise e \<Rightarrow> Raise e | Return v \<Rightarrow> Return ())"
    if "attrs written (listener_name lst) = Some (VRef r)" "code inst r = Some c" for r c
  proof -
    from that(2) cd have "code written r = Some c" by simp
    from call_attr_callable [OF that(1) this]
    show ?thesis by (simp add: eq snd_expr_stmt fst_expr_stmt)
  qed
  from eq tr first called show ?thesis by blast
qed

theorem changing_write_notifies_witness:
  "prop_py meta False (LStr ''_on_change'') True speed = Return tracked_speed \<and>
   truthy (LStr ''_on_change'') \<and>
   py_ne (getattr_default car ''_speed'' VNone) (VInt 50) \<and>
   trace (snd (property_set tracked_speed car (VInt 50))) =
     [Setattr ''_speed'' (VInt 50), Setattr ''_is_dirty'' (VBool True),
      Call ''_on_change'' [VStr ''_speed'', VNone, VInt 50]] \<and>
   attrs (snd (property_set tracked_speed car (VInt 50))) ''_speed'' = Some (VInt 50) \<and>
   fst (property_set tracked_speed car (VInt 50)) = Return ()"
proof -
  have d: "prop_py meta False (LStr ''_on_change'') True speed = Return tracked_speed"
    by (simp add: decl_defs speed_def tracked_speed_def)
  have l: "truthy (LStr ''_on_change'')" by simp
  have n: "CHR ''_'' # fn_name speed = ''_speed''" by (simp add: speed_def)
  have c: "py_ne (getattr_default car (CHR ''_'' # fn_name speed) VNone) (VInt 50)"
    by (simp add: n getattr_default_def car_def py_ne_def)
  from changing_write_notifies [OF d l c]
  have "property_set tracked_speed car (VInt 50) =
      expr_stmt (call_attr
        (if p_auto_dirty meta \<or> True
         then setattr (setattr car (CHR ''_'' # fn_name speed) (VInt 50)) ''_is_dirty'' (VBool True)
         else setattr car (CHR ''_'' # fn_name speed) (VInt 50))
        (listener_name (LStr ''_on_change''))
        [VStr (CHR ''_'' # fn_name speed),
         getattr_default car (CHR ''_'' # fn_name speed) VNone, VInt 50])"
    by blast
  then have r: "property_set tracked_speed car (VInt 50) =
      (Return (),
       car\<lparr>attrs := (attrs car)(''_speed'' \<mapsto> VInt 50, ''_is_dirty'' \<mapsto> VBool True),
           trace := [Setattr ''_speed'' (VInt 50), Setattr ''_is_dirty'' (VBool True),
                     Call ''_on_change'' [VStr ''_speed'', VNone, VInt 50]]\<rparr>)"
    by (simp add: n getattr_default_def setattr_def call_attr_def expr_stmt_def car_def
        on_change_def)
  from c have c': "py_ne (getattr_default car ''_speed'' VNone) (VInt 50)" by (simp add: n)
  from d l c' r show ?thesis by simp
qed

text \<open>
  C9. On a value-changing write, a property declared with \<open>listener = True\<close> resolves and
  calls the attribute \<open>_changed\<close>; one declared with a non-empty string resolves and
  calls the attribute of exactly that name; one declared with the empty string calls
  nothing. Whatever the declaration, a call made by the setter is made under the name
  \<open>listener_name\<close> gives.
\<close>

theorem listener_method_name:
  fixes ctx :: properties and auto_dirty :: bool and f :: pyfun and inst :: obj and new :: val
  defines "field \<equiv> CHR ''_'' # fn_name f"
  defines "old \<equiv> getattr_default inst field VNone"
  defines "written \<equiv>
    (if p_auto_dirty ctx \<or> auto_dirty
     then setattr (setattr inst field new) ''_is_dirty'' (VBool True)
     else setattr inst field new)"
  assumes decl: "prop_py ctx False lst auto_dirty f = Return p"
    and chg: "py_ne old new"
  shows
    "(lst = LBool True \<longrightarrow>
        property_set p inst new =
          expr_stmt (call_attr written ''_changed'' [VStr field, old, new])) \<and>
     (\<forall>s. lst = LStr s \<longrightarrow> s \<noteq> [] \<longrightarrow>
        property_set p inst new = expr_stmt (call_attr written s [VStr field, old, new])) \<and>
     (lst = LStr [] \<longrightarrow> property_set p inst new = (Return (), written)) \<and>
     (\<forall>n a. Call n a \<in> set (drop (length (trace inst)) (trace (snd (property_set p inst new))))
        \<longrightarrow> truthy lst \<and> n = listener_name lst)"
proof -
  let ?args = "[VStr field, old, new]"
  let ?dirty = "if p_auto_dirty ctx \<or> auto_dirty then [Setattr ''_is_dirty'' (VBool True)] else []"
  have with_listener: "property_set p inst new =
       expr_stmt (call_attr written (listener_name lst) ?args)"
    if "truthy lst"
    using chg that
    by (simp add: property_set_declared [OF decl] setter_listener_changed
        field_def old_def written_def)
  have without: "property_set p inst new = (Return (), written)" if "\<not> truthy lst"
    using chg that
    by (simp add: property_set_declared [OF decl] setter_plain_changed
        field_def old_def written_def)
  have tw: "trace written = trace inst @ Setattr field new # ?dirty"
    unfolding written_def by (rule written_trace)
  have c1: "lst = LBool True \<longrightarrow>
        property_set p inst new = expr_stmt (call_attr written ''_changed'' ?args)"
  proof
    assume l: "lst = LBool True"
    then have "truthy lst" by simp
    from with_listener [OF this] show
      "property_set p inst new = expr_stmt (call_attr written ''_changed'' ?args)"
      by (simp add: l)
  qed
  have c2: "\<forall>s. lst = LStr s \<longrightarrow> s \<noteq> [] \<longrightarrow>
        property_set p inst new = expr_stmt (call_attr written s ?args)"
  proof (intro allI impI)
    fix s
    assume l: "lst = LStr s" and s: "s \<noteq> []"
    then have "truthy lst" by simp
    from with_listener [OF this] show
      "property_set p inst new = expr_stmt (call_attr written s ?args)"
      by (simp add: l)
  qed
  have c3: "lst = LStr [] \<longrightarrow> property_set p inst new = (Return (), written)"
  proof
    assume "lst = LStr []"
    then have "\<not> truthy lst" by simp
    then show "property_set p inst new = (Return (), written)" by (rule without)
  qed
  have c4: "\<forall>n a. Call n a \<in> set (drop (length (trace inst)) (trace (snd (property_set p inst new))))
        \<longrightarrow> truthy lst \<and> n = listener_name lst"
  proof (intro allI impI)
    fix n a
    assume c: "Call n a \<in>
      set (drop (length (trace inst)) (trace (snd (property_set p inst new))))"
    have nd: "Call n a \<notin> set (Setattr field new # ?dirty)" by simp
    show "truthy lst \<and> n = listener_name lst"
    proof (cases "truthy lst")
      case False
      then have "trace (snd (property_set p inst new)) = trace inst @ Setattr field new # ?dirty"
        by (simp only: without [OF False] snd_conv tw)
      then have "drop (length (trace inst)) (trace (snd (property_set p inst new))) =
          Setattr field new # ?dirty"
        by simp
      with c nd show ?thesis by simp
    next
      case True
      have s: "snd (property_set p inst new) = snd (call_attr written (listener_name lst) ?args)"
        by (simp only: with_listener [OF True] snd_expr_stmt)
      from call_attr_trace [of written "listener_name lst" ?args]
      have "trace (snd (property_set p inst new)) = trace inst @ Setattr field new # ?dirty \<or>
            trace (snd (property_set p inst new)) =
              trace inst @ (Setattr field new # ?dirty) @ [Call (listener_name lst) ?args]"
        by (simp only: s tw append_assoc)
      then have "drop (length (trace inst)) (trace (snd (property_set p inst new))) =
            Setattr field new # ?dirty \<or>
          drop (length (trace inst)) (trace (snd (property_set p inst new))) =
            (Setattr field new # ?dirty) @ [Call (listener_name lst) ?args]"
        by (elim disjE) simp_all
      then show ?thesis
      proof
        assume "drop (length (trace inst)) (trace (snd (property_set p inst new))) =
            Setattr field new # ?dirty"
        with c nd show ?thesis by simp
      next
        assume e: "drop (length (trace inst)) (trace (snd (property_set p inst new))) =
            (Setattr field new # ?dirty) @ [Call (listener_name lst) ?args]"
        from c have "Call n a \<in> set ((Setattr field new # ?dirty) @ [Call (listener_name lst) ?args])"
          by (simp only: e)
        with nd have "Call n a = Call (listener_name lst) ?args" by simp
        with True show ?thesis by simp
      qed
    qed
  qed
  show ?thesis by (rule conjI [OF c1 conjI [OF c2 conjI [OF c3 c4]]])
qed

theorem listener_method_name_witness:
  "prop_py meta False (LBool True) False speed = Return changed_speed \<and>
   py_ne (getattr_default car ''_speed'' VNone) (VInt 50) \<and>
   trace (snd (property_set changed_speed car (VInt 50))) =
     [Setattr ''_speed'' (VInt 50), Call ''_changed'' [VStr ''_speed'', VNone, VInt 50]] \<and>
   prop_py meta False (LStr ''_limit'') False speed = Return limited_speed \<and>
   trace (snd (property_set limited_speed car (VInt 50))) =
     [Setattr ''_speed'' (VInt 50), Call ''_limit'' [VStr ''_speed'', VNone, VInt 50]]"
proof -
  have d1: "prop_py meta False (LBool True) False speed = Return changed_speed"
    by (simp add: decl_defs speed_def changed_speed_def)
  have d2: "prop_py meta False (LStr ''_limit'') False speed = Return limited_speed"
    by (simp add: decl_defs speed_def limited_speed_def)
  have n: "CHR ''_'' # fn_name speed = ''_speed''" by (simp add: speed_def)
  have c: "py_ne (getattr_default car (CHR ''_'' # fn_name speed) VNone) (VInt 50)"
    by (simp add: n getattr_default_def car_def py_ne_def)
  have m: "\<not> p_auto_dirty meta"
    by (simp add: meta_def properties_init_def properties_enter_def)
  from listener_method_name [OF d1 c]
  have "property_set changed_speed car (VInt 50) =
      expr_stmt (call_attr
        (if p_auto_dirty meta \<or> False
         then setattr (setattr car (CHR ''_'' # fn_name speed) (VInt 50)) ''_is_dirty'' (VBool True)
         else setattr car (CHR ''_'' # fn_name speed) (VInt 50))
        ''_changed''
        [VStr (CHR ''_'' # fn_name speed),
         getattr_default car (CHR ''_'' # fn_name speed) VNone, VInt 50])"
    by blast
  then have w1: "trace (snd (property_set changed_speed car (VInt 50))) =
     [Setattr ''_speed'' (VInt 50), Call ''_changed'' [VStr ''_speed'', VNone, VInt 50]]"
    by (simp add: n m getattr_default_def setattr_def call_attr_def expr_stmt_def car_def
        on_change_def)
  from listener_method_name [OF d2 c]
  have "property_set limited_speed car (VInt 50) =
      expr_stmt (call_attr
        (if p_auto_dirty meta \<or> False
         then setattr (setattr car (CHR ''_'' # fn_name speed) (VInt 50)) ''_is_dirty'' (VBool True)
         else setattr car (CHR ''_'' # fn_name speed) (VInt 50))
        ''_limit''
        [VStr (CHR ''_'' # fn_name speed),
         getattr_default car (CHR ''_'' # fn_name speed) VNone, VInt 50])"
    by blast
  then have w2: "trace (snd (property_set limited_speed car (VInt 50))) =
     [Setattr ''_speed'' (VInt 50), Call ''_limit'' [VStr ''_speed'', VNone, VInt 50]]"
    by (simp add: n m getattr_default_def setattr_def call_attr_def expr_stmt_def car_def
        limit_def)
  from c have c': "py_ne (getattr_default car ''_speed'' VNone) (VInt 50)" by (simp add: n)
  from d1 c' w1 d2 w2 show ?thesis by blast
qed

text \<open>
  The claim as worded fails for the empty string: no method is called, even on an
  instance that has a callable attribute under the empty name.
\<close>

theorem empty_listener_name_counterexample:
  "prop_py meta False (LStr []) False speed = Return unnamed_speed \<and>
   attrs (car\<lparr>attrs := (attrs car)([] \<mapsto> VRef 1)\<rparr>) [] = Some (VRef 1) \<and>
   py_ne (getattr_default (car\<lparr>attrs := (attrs car)([] \<mapsto> VRef 1)\<rparr>) ''_speed'' VNone)
     (VInt 50) \<and>
   trace (snd (property_set unnamed_speed (car\<lparr>attrs := (attrs car)([] \<mapsto> VRef 1)\<rparr>)
                 (VInt 50))) = [Setattr ''_speed'' (VInt 50)]"
  by (simp add: decl_defs run_defs speed_def unnamed_speed_def car_def)

section \<open>The dirty flag\<close>

lemma setter_listener_trace_cases:
  "trace (snd (setter_listener field lname ad inst v)) = trace inst \<or>
   trace (snd (setter_listener field lname ad inst v)) =
      trace inst @ Setattr field v # (if ad then [Setattr ''_is_dirty'' (VBool True)] else []) \<or>
   trace (snd (setter_listener field lname ad inst v)) =
      trace inst @ Setattr field v # (if ad then [Setattr ''_is_dirty'' (VBool True)] else [])
        @ [Call lname [VStr field, getattr_default inst field VNone, v]]"
proof (cases "py_ne (getattr_default inst field VNone) v")
  case False
  then show ?thesis by (simp add: setter_listener_noop py_ne_def)
next
  case True
  let ?w = "if ad then setattr (setattr inst field v) ''_is_dirty'' (VBool True)
            else setattr inst field v"
  let ?args = "[VStr field, getattr_default inst field VNone, v]"
  from call_attr_trace [of ?w lname ?args]
  have "trace (snd (setter_listener field lname ad inst v)) = trace ?w \<or>
        trace (snd (setter_listener field lname ad inst v)) = trace ?w @ [Call lname ?args]"
    by (simp only: setter_listener_changed [OF True] snd_expr_stmt)
  then show ?thesis
    by (elim disjE) (simp_all only: written_trace append_assoc append_Cons simp_thms)
qed

lemma setter_plain_trace_cases:
  "trace (snd (setter_plain field ad inst v)) = trace inst \<or>
   trace (snd (setter_plain field ad inst v)) =
      trace inst @ Setattr field v # (if ad then [Setattr ''_is_dirty'' (VBool True)] else [])"
  by (cases "py_ne (getattr_default inst field VNone) v")
    (simp_all add: setter_plain_changed setter_plain_noop py_ne_def setattr_def)

lemma setter_writes_flag_True:
  assumes "prop_py ctx read_only lst auto_dirty f = Return p"
    and "fn_name f \<noteq> ''is_dirty''"
    and "Setattr ''_is_dirty'' x \<in>
           set (drop (length (trace inst)) (trace (snd (property_set p inst v))))"
  shows "x = VBool True"
proof (cases read_only)
  case True
  with prop_py_cases(3) [OF assms(1)] have "property_set p inst v = (Raise AttributeError, inst)"
    by (simp add: property_set_def)
  with assms(3) show ?thesis by simp
next
  case False
  with assms(1) have d: "prop_py ctx False lst auto_dirty f = Return p" by simp
  from assms(2) have nf: "CHR ''_'' # fn_name f \<noteq> ''_is_dirty''" by simp
  show ?thesis
  proof (cases "truthy lst")
    case True
    from setter_listener_trace_cases
      [of "CHR ''_'' # fn_name f" "listener_name lst" "p_auto_dirty ctx \<or> auto_dirty" inst v]
      assms(3) nf True
    show ?thesis
      by (auto simp: property_set_declared [OF d] split: if_splits)
  next
    case False
    from setter_plain_trace_cases
      [of "CHR ''_'' # fn_name f" "p_auto_dirty ctx \<or> auto_dirty" inst v]
      assms(3) nf False
    show ?thesis
      by (auto simp: property_set_declared [OF d] split: if_splits)
  qed
qed

lemma setter_plain_keeps_flag:
  "field \<noteq> ''_is_dirty'' \<Longrightarrow> attrs inst ''_is_dirty'' = Some (VBool True) \<Longrightarrow>
   attrs (snd (setter_plain field ad inst v)) ''_is_dirty'' = Some (VBool True)"
  by (simp add: setter_plain_def setattr_def Let_def)

lemma self_properties_keeps_flag:
  assumes "''is_dirty'' \<notin> fst ` set (kept exclude scope)"
  shows "attrs (self_properties inst scope exclude save_args) ''_is_dirty'' =
         attrs inst ''_is_dirty''"
proof -
  from assms have "''_is_dirty'' \<notin> (\<lambda>(k, v). CHR ''_'' # k) ` set (kept exclude scope)"
    by force
  from copy_items_other [OF this] show ?thesis
    by (cases save_args)
      (simp_all add: self_properties_save self_properties_plain setattr_def)
qed

text \<open>
  C5. On a property declared with \<open>auto_dirty = True\<close>, or in a context built with
  auto-dirty \<open>True\<close>, a value-changing write sets \<open>_is_dirty\<close> to \<open>True\<close> right after
  writing the backing field: without listener the flag is \<open>True\<close> when the write
  returns, with a listener it is \<open>True\<close> on the instance the listener is resolved on and
  called with. The utility itself never writes another value to \<open>_is_dirty\<close>, and so
  never clears it, as long as the caller does not name that attribute: the setter of a
  property not named \<open>is_dirty\<close> writes only \<open>True\<close> to the flag (and without listener
  keeps a set flag), a read writes no attribute, and the bulk initializer leaves the
  flag alone unless the mapping has a copied entry \<open>is_dirty\<close>.
\<close>

theorem auto_dirty_sets_flag:
  assumes decl: "prop_py ctx False lst auto_dirty f = Return p"
    and auto: "p_auto_dirty ctx \<or> auto_dirty"
    and chg: "py_ne (getattr_default inst (CHR ''_'' # fn_name f) VNone) new"
  shows
    "(\<exists>rest. trace (snd (property_set p inst new)) =
        trace inst @
        [Setattr (CHR ''_'' # fn_name f) new, Setattr ''_is_dirty'' (VBool True)] @ rest) \<and>
     (\<not> truthy lst \<longrightarrow>
        attrs (snd (property_set p inst new)) ''_is_dirty'' = Some (VBool True)) \<and>
     (truthy lst \<longrightarrow>
        attrs (setattr (setattr inst (CHR ''_'' # fn_name f) new) ''_is_dirty'' (VBool True))
          ''_is_dirty'' = Some (VBool True) \<and>
        property_set p inst new =
          expr_stmt (call_attr
            (setattr (setattr inst (CHR ''_'' # fn_name f) new) ''_is_dirty'' (VBool True))
            (listener_name lst)
            [VStr (CHR ''_'' # fn_name f),
             getattr_default inst (CHR ''_'' # fn_name f) VNone, new])) \<and>
     (\<forall>ctx' ro' lst' ad' f' q i v x.
        prop_py ctx' ro' lst' ad' f' = Return q \<longrightarrow> fn_name f' \<noteq> ''is_dirty'' \<longrightarrow>
          (Setattr ''_is_dirty'' x \<in>
             set (drop (length (trace i)) (trace (snd (property_set q i v)))) \<longrightarrow>
             x = VBool True) \<and>
          (\<forall>n. Setattr n x \<notin> set (drop (length (trace i)) (trace (snd (property_get q i))))) \<and>
          (\<not> truthy lst' \<longrightarrow> attrs i ''_is_dirty'' = Some (VBool True) \<longrightarrow>
             attrs (snd (property_set q i v)) ''_is_dirty'' = Some (VBool True))) \<and>
     (\<forall>i scope exclude save_args.
        ''is_dirty'' \<notin> fst ` set (kept exclude scope) \<longrightarrow>
          attrs (self_properties i scope exclude save_args) ''_is_dirty'' =
            attrs i ''_is_dirty'')"
proof -
  let ?field = "CHR ''_'' # fn_name f"
  let ?old = "getattr_default inst ?field VNone"
  let ?w = "setattr (setattr inst ?field new) ''_is_dirty'' (VBool True)"
  have tw: "trace ?w = trace inst @ [Setattr ?field new, Setattr ''_is_dirty'' (VBool True)]"
    by (simp add: setattr_def)
  have aw: "attrs ?w ''_is_dirty'' = Some (VBool True)"
    by (simp add: setattr_def)
  have plain: "property_set p inst new = (Return (), ?w)" if "\<not> truthy lst"
    using that chg auto
    by (simp add: property_set_declared [OF decl] setter_plain_changed)
  have listen: "property_set p inst new =
      expr_stmt (call_attr ?w (listener_name lst) [VStr ?field, ?old, new])"
    if "truthy lst"
    using that chg auto
    by (simp add: property_set_declared [OF decl] setter_listener_changed)
  have c1: "\<exists>rest. trace (snd (property_set p inst new)) =
        trace inst @ [Setattr ?field new, Setattr ''_is_dirty'' (VBool True)] @ rest"
  proof (cases "truthy lst")
    case False
    have "trace (snd (property_set p inst new)) =
        trace inst @ [Setattr ?field new, Setattr ''_is_dirty'' (VBool True)] @ []"
      by (simp only: plain [OF False] snd_conv tw append_Nil2)
    then show ?thesis by (rule exI)
  next
    case True
    let ?args = "[VStr ?field, ?old, new]"
    from call_attr_trace [of ?w "listener_name lst" ?args]
    have "trace (snd (property_set p inst new)) = trace ?w \<or>
          trace (snd (property_set p inst new)) = trace ?w @ [Call (listener_name lst) ?args]"
      by (simp only: listen [OF True] snd_expr_stmt)
    then show ?thesis
    proof
      assume "trace (snd (property_set p inst new)) = trace ?w"
      then have "trace (snd (property_set p inst new)) =
          trace inst @ [Setattr ?field new, Setattr ''_is_dirty'' (VBool True)] @ []"
        by (simp only: tw append_Nil2)
      then show ?thesis by (rule exI)
    next
      assume "trace (snd (property_set p inst new)) =
          trace ?w @ [Call (listener_name lst) ?args]"
      then have "trace (snd (property_set p inst new)) =
          trace inst @ [Setattr ?field new, Setattr ''_is_dirty'' (VBool True)] @
            [Call (listener_name lst) ?args]"
        by (simp only: tw append_assoc)
      then show ?thesis by (rule exI)
    qed
  qed
  have c2: "\<not> truthy lst \<longrightarrow>
        attrs (snd (property_set p inst new)) ''_is_dirty'' = Some (VBool True)"
  proof
    assume n: "\<not> truthy lst"
    show "attrs (snd (property_set p inst new)) ''_is_dirty'' = Some (VBool True)"
      by (simp only: plain [OF n] snd_conv aw)
  qed
  have c3: "truthy lst \<longrightarrow>
        attrs ?w ''_is_dirty'' = Some (VBool True) \<and>
        property_set p inst new =
          expr_stmt (call_attr ?w (listener_name lst) [VStr ?field, ?old, new])"
    using aw listen by blast
  have c4: "\<forall>ctx' ro' lst' ad' f' q i v x.
        prop_py ctx' ro' lst' ad' f' = Return q \<longrightarrow> fn_name f' \<noteq> ''is_dirty'' \<longrightarrow>
          (Setattr ''_is_dirty'' x \<in>
             set (drop (length (trace i)) (trace (snd (property_set q i v)))) \<longrightarrow>
             x = VBool True) \<and>
          (\<forall>n. Setattr n x \<notin> set (drop (length (trace i)) (trace (snd (property_get q i))))) \<and>
          (\<not> truthy lst' \<longrightarrow> attrs i ''_is_dirty'' = Some (VBool True) \<longrightarrow>
             attrs (snd (property_set q i v)) ''_is_dirty'' = Some (VBool True))"
  proof (intro allI impI conjI)
    fix ctx' ro' lst' ad' and f' :: pyfun and q and i :: obj and v x
    assume d: "prop_py ctx' ro' lst' ad' f' = Return q" and nf: "fn_name f' \<noteq> ''is_dirty''"
    {
      assume "Setattr ''_is_dirty'' x \<in>
             set (drop (length (trace i)) (trace (snd (property_set q i v))))"
      with d nf show "x = VBool True" by (rule setter_writes_flag_True)
    }
    {
      fix n
      show "Setattr n x \<notin> set (drop (length (trace i)) (trace (snd (property_get q i))))"
        by (simp add: property_get_declared [OF d] getter_trace)
    }
    {
      assume nl: "\<not> truthy lst'" and fl: "attrs i ''_is_dirty'' = Some (VBool True)"
      show "attrs (snd (property_set q i v)) ''_is_dirty'' = Some (VBool True)"
      proof (cases ro')
        case True
        with prop_py_cases(3) [OF d] have "property_set q i v = (Raise AttributeError, i)"
          by (simp add: property_set_def)
        with fl show ?thesis by simp
      next
        case False
        with d have d': "prop_py ctx' False lst' ad' f' = Return q" by simp
        from nf have "CHR ''_'' # fn_name f' \<noteq> ''_is_dirty''" by simp
        from setter_plain_keeps_flag [OF this fl] nl show ?thesis
          by (simp add: property_set_declared [OF d'])
      qed
    }
  qed
  have c5: "\<forall>i scope exclude save_args.
        ''is_dirty'' \<notin> fst ` set (kept exclude scope) \<longrightarrow>
          attrs (self_properties i scope exclude save_args) ''_is_dirty'' =
            attrs i ''_is_dirty''"
    using self_properties_keeps_flag by blast
  show ?thesis by (rule conjI [OF c1 conjI [OF c2 conjI [OF c3 conjI [OF c4 c5]]]])
qed

theorem auto_dirty_sets_flag_witness:
  "prop_py meta False LNone True speed = Return dirty_speed \<and>
   prop_py (properties_init [] ''meta'' True) False LNone False speed = Return dirty_speed \<and>
   py_ne (getattr_default car ''_speed'' VNone) (VInt 50) \<and>
   attrs (snd (property_set dirty_speed car (VInt 50))) ''_is_dirty'' = Some (VBool True) \<and>
   prop_py meta False LNone False vin = Return vin_prop \<and>
   attrs (snd (property_set vin_prop (snd (property_set dirty_speed car (VInt 50)))
                 (VStr ''X1''))) ''_is_dirty'' = Some (VBool True) \<and>
   attrs (self_properties (snd (property_set dirty_speed car (VInt 50)))
            [(''self'', VRef 0), (''brand'', VStr ''Ford'')] [] True) ''_is_dirty'' =
     Some (VBool True)"
proof -
  let ?dcar = "snd (property_set dirty_speed car (VInt 50))"
  have d: "prop_py meta False LNone True speed = Return dirty_speed"
    by (simp add: decl_defs speed_def dirty_speed_def)
  have d': "prop_py (properties_init [] ''meta'' True) False LNone False speed =
      Return dirty_speed"
    by (simp add: decl_defs speed_def dirty_speed_def)
  have dv: "prop_py meta False LNone False vin = Return vin_prop"
    by (simp add: decl_defs vin_def vin_prop_def)
  have a: "p_auto_dirty meta \<or> True" by simp
  have n: "CHR ''_'' # fn_name speed = ''_speed''" by (simp add: speed_def)
  have c: "py_ne (getattr_default car (CHR ''_'' # fn_name speed) VNone) (VInt 50)"
    by (simp add: n getattr_default_def car_def py_ne_def)
  have nl: "\<not> truthy LNone" by simp
  have nv: "fn_name vin \<noteq> ''is_dirty''" by (simp add: vin_def)
  have nk: "''is_dirty'' \<notin>
      fst ` set (kept [] [(''self'', VRef 0), (''brand'', VStr ''Ford'')])"
    by (simp add: kept_def)
  note t = auto_dirty_sets_flag [OF d a c]
  from t nl have w1: "attrs ?dcar ''_is_dirty'' = Some (VBool True)" by blast
  from t dv nv nl w1
  have w2: "attrs (snd (property_set vin_prop ?dcar (VStr ''X1''))) ''_is_dirty'' =
      Some (VBool True)"
    by blast
  from t nk
  have "attrs (self_properties ?dcar [(''self'', VRef 0), (''brand'', VStr ''Ford'')] [] True)
      ''_is_dirty'' = attrs ?dcar ''_is_dirty''"
    by blast
  with w1
  have w3: "attrs (self_properties ?dcar [(''self'', VRef 0), (''brand'', VStr ''Ford'')] [] True)
      ''_is_dirty'' = Some (VBool True)"
    by simp
  from c have c': "py_ne (getattr_default car ''_speed'' VNone) (VInt 50)" by (simp add: n)
  from d d' c' w1 dv w2 w3 show ?thesis by blast
qed

text \<open>
  The claim as worded fails where the caller names the flag's attribute: the bulk
  initializer with an entry \<open>is_dirty\<close>, and the setter of a property named
  \<open>is_dirty\<close>, write \<open>False\<close> over a set flag.
\<close>

theorem dirty_flag_cleared_counterexample:
  "prop_py meta False LNone True speed = Return dirty_speed \<and>
   attrs (snd (property_set dirty_speed car (VInt 50))) ''_is_dirty'' = Some (VBool True) \<and>
   attrs (self_properties (snd (property_set dirty_speed car (VInt 50)))
            [(''self'', VRef 0), (''is_dirty'', VBool False)] [] False) ''_is_dirty'' =
     Some (VBool False) \<and>
   prop_py meta False LNone False is_dirty = Return is_dirty_prop \<and>
   attrs (snd (property_set is_dirty_prop (snd (property_set dirty_speed car (VInt 50)))
                 (VBool False))) ''_is_dirty'' = Some (VBool False)"
  by (simp add: decl_defs run_defs speed_def dirty_speed_def is_dirty_def is_dirty_prop_def
      car_def self_properties_def)

end
